theory Spec2Isabelle
  imports Complex_Main "HOL-Library.Log_Nat"
begin

section \<open>MRIConstants.h: guarded definitions of the gyromagnetic ratio of hydrogen\<close>

text \<open>
  The header \<^verbatim>\<open>mdt/data/components/standard/library_functions/MRIConstants.h\<close>
  consists of four object-like macro definitions, each wrapped in
  \<^verbatim>\<open>#ifndef NAME ... #endif\<close>. The development below embeds
  \<^item> the replacement lists of the macros as constant expressions,
  \<^item> the preprocessor's macro table and the directives \<^verbatim>\<open>#define\<close> and
    \<^verbatim>\<open>#ifndef\<close>,
  \<^item> macro expansion at the place of use,
  \<^item> the value of an expanded expression, once in exact arithmetic and once in
    IEEE 754 binary64 arithmetic (round to nearest, ties to even).
\<close>

subsection \<open>Constant expressions\<close>

text \<open>
  A floating constant is kept as the exact decimal number it denotes
  (\<^verbatim>\<open>267.5987E6\<close> is \<open>267.5987 * 10 ^ 6\<close>). The integer constant \<^verbatim>\<open>2\<close> of
  \<^verbatim>\<open>(2 * M_PI)\<close> is converted to double by the usual arithmetic conversions, which is
  exact, so it is a \<open>Lit\<close> as well. A negative \<open>Lit\<close> stands for a negated constant of
  a consumer. Every replacement list of the header is a single constant or a fully
  parenthesised expression, hence textual replacement agrees with replacement of
  subterms.
\<close>

type_synonym ident = string

datatype expr =
    Lit rat
  | Ident ident
  | Mul expr expr
  | Div expr expr

subsection \<open>The macro table and the directives\<close>

text \<open>
  The macro table lists the definitions in the order in which they were made. A
  \<^verbatim>\<open>#define\<close> of a name that is already defined with a different replacement list is
  the duplicate-definition error; with the same replacement list it is accepted and
  changes nothing.
\<close>

type_synonym macros = "(ident \<times> expr) list"

datatype directive =
    Define ident expr
  | Ifndef ident "directive list"

datatype pp_error = Redefined ident

fun run :: "directive \<Rightarrow> macros \<Rightarrow> pp_error + macros"
  and run_all :: "directive list \<Rightarrow> macros \<Rightarrow> pp_error + macros" where
  "run (Define x b) ms =
     (case map_of ms x of
        None \<Rightarrow> Inr (ms @ [(x, b)])
      | Some b' \<Rightarrow> if b' = b then Inr ms else Inl (Redefined x))"
| "run (Ifndef x ds) ms =
     (case map_of ms x of
        None \<Rightarrow> run_all ds ms
      | Some b' \<Rightarrow> Inr ms)"
| "run_all [] ms = Inr ms"
| "run_all (d # ds) ms =
     (case run d ms of
        Inl e \<Rightarrow> Inl e
      | Inr ms' \<Rightarrow> run_all ds ms')"

subsection \<open>The header\<close>

text \<open>
  The directives of the header, in the order of the file:
  \<^verbatim>\<open>
  #ifndef GAMMA_H
      #define GAMMA_H 267.5987E6
  #endif
  #ifndef GAMMA_H_HZ
      #define GAMMA_H_HZ (GAMMA_H / (2 * M_PI))
  #endif
  #ifndef GAMMA_H_SQ
      #define GAMMA_H_SQ (GAMMA_H * GAMMA_H)
  #endif
  #ifndef GAMMA_H_HZ_SQ
      #define GAMMA_H_HZ_SQ (GAMMA_H_HZ * GAMMA_H_HZ)
  #endif
  \<close>
\<close>

definition MRIConstants_h :: "directive list" where
  "MRIConstants_h =
     [Ifndef ''GAMMA_H''
        [Define ''GAMMA_H'' (Lit (267.5987 * 10 ^ 6))],
      Ifndef ''GAMMA_H_HZ''
        [Define ''GAMMA_H_HZ'' (Div (Ident ''GAMMA_H'') (Mul (Lit 2) (Ident ''M_PI'')))],
      Ifndef ''GAMMA_H_SQ''
        [Define ''GAMMA_H_SQ'' (Mul (Ident ''GAMMA_H'') (Ident ''GAMMA_H''))],
      Ifndef ''GAMMA_H_HZ_SQ''
        [Define ''GAMMA_H_HZ_SQ'' (Mul (Ident ''GAMMA_H_HZ'') (Ident ''GAMMA_H_HZ''))]]"

definition include_header :: "macros \<Rightarrow> pp_error + macros" where
  "include_header ms = run_all MRIConstants_h ms"

text \<open>Including the header \<open>n\<close> times in a row; the first error stops the build.\<close>

fun include_times :: "nat \<Rightarrow> macros \<Rightarrow> pp_error + macros" where
  "include_times 0 ms = Inr ms"
| "include_times (Suc n) ms =
     (case include_header ms of
        Inl e \<Rightarrow> Inl e
      | Inr ms' \<Rightarrow> include_times n ms')"

definition constant_names :: "ident list" where
  "constant_names = [''GAMMA_H'', ''GAMMA_H_HZ'', ''GAMMA_H_SQ'', ''GAMMA_H_HZ_SQ'']"

text \<open>
  Modelled from the spec: \<^verbatim>\<open>M_PI\<close> is not defined in this header; it is the \<open>\<pi>\<close> of the
  host's standard math library, a floating constant with at least double-precision
  accuracy. The replacement list is the one of the C library's \<^verbatim>\<open>math.h\<close>.
\<close>

definition host_macros :: macros where
  "host_macros = [(''M_PI'', Lit 3.14159265358979323846)]"

subsection \<open>Macro expansion\<close>

text \<open>
  An identifier that names a macro is replaced by the macro's replacement list, which is
  rescanned with that macro's name hidden (a macro is never expanded inside its own
  expansion). An identifier that names no macro stays.
\<close>

definition hide :: "ident \<Rightarrow> macros \<Rightarrow> macros" where
  "hide x ms = filter (\<lambda>p. fst p \<noteq> x) ms"

function expand :: "macros \<Rightarrow> expr \<Rightarrow> expr" where
  "expand ms (Lit q) = Lit q"
| "expand ms (Ident x) =
     (case map_of ms x of
        None \<Rightarrow> Ident x
      | Some b \<Rightarrow> expand (hide x ms) b)"
| "expand ms (Mul a b) = Mul (expand ms a) (expand ms b)"
| "expand ms (Div a b) = Div (expand ms a) (expand ms b)"
  by pat_completeness auto
termination
proof (relation "measures [\<lambda>(ms, e). length ms, \<lambda>(ms, e). size e]")
  fix ms :: macros and x :: ident and b :: expr
  assume "map_of ms x = Some b"
  then have "(x, b) \<in> set ms"
    by (rule map_of_SomeD)
  then have "length (hide x ms) < length ms"
    unfolding hide_def by (intro length_filter_less [of "(x, b)"]) simp_all
  then show "((hide x ms, b), (ms, Ident x)) \<in> measures [\<lambda>(ms, e). length ms, \<lambda>(ms, e). size e]"
    by simp
qed simp_all

subsection \<open>Exact arithmetic\<close>

text \<open>
  The value of an expanded expression over the real numbers. An identifier that is left
  after macro expansion is an undeclared identifier, and so is a division by zero no
  constant: both have no value.
\<close>

primrec value_exact :: "expr \<Rightarrow> real option" where
  "value_exact (Lit q) = Some (of_rat q)"
| "value_exact (Ident x) = None"
| "value_exact (Mul a b) =
     (case value_exact a of
        None \<Rightarrow> None
      | Some u \<Rightarrow> (case value_exact b of None \<Rightarrow> None | Some v \<Rightarrow> Some (u * v)))"
| "value_exact (Div a b) =
     (case value_exact a of
        None \<Rightarrow> None
      | Some u \<Rightarrow>
          (case value_exact b of
             None \<Rightarrow> None
           | Some v \<Rightarrow> if v = 0 then None else Some (u / v)))"

definition exact_constant :: "macros \<Rightarrow> ident \<Rightarrow> real option" where
  "exact_constant ms x = value_exact (expand ms (Ident x))"

subsection \<open>Double-precision arithmetic\<close>

text \<open>
  A double is a signed finite magnitude (\<open>Fin True 0\<close> is the negative zero), a signed
  infinity or a NaN. The finite doubles are the numbers \<open>m * 2 ^ e\<close> with
  \<open>m < 2 ^ 53\<close> and \<open>- 1074 \<le> e \<le> 971\<close>.
\<close>

datatype double = Fin bool rat | Inf bool | NaN

text \<open>\<open>ilog2 q\<close> is the binary exponent \<open>\<lfloor>log 2 q\<rfloor>\<close> of a positive rational.\<close>

definition ilog2 :: "rat \<Rightarrow> int" where
  "ilog2 q = (if 1 \<le> q then bitlen \<lfloor>q\<rfloor> - 1 else - bitlen (\<lceil>1 / q\<rceil> - 1))"

definition round_half_even :: "rat \<Rightarrow> int" where
  "round_half_even x =
     (let f = \<lfloor>x\<rfloor>; r = x - of_int f
      in if r < 1 / 2 then f
         else if 1 / 2 < r then f + 1
         else if even f then f else f + 1)"

text \<open>
  Rounding an exact magnitude to the nearest double, ties to even: 53 significant bits,
  the exponent not below that of the subnormal numbers, and overflow to infinity.
\<close>

definition to_double :: "bool \<Rightarrow> rat \<Rightarrow> double" where
  "to_double s q =
     (if q = 0 then Fin s 0
      else let e = max (ilog2 q - 52) (- 1074);
               v = of_int (round_half_even (q / 2 powi e)) * 2 powi e
           in if 2 ^ 1024 \<le> v then Inf s else Fin s v)"

definition of_literal :: "rat \<Rightarrow> double" where
  "of_literal q = to_double (q < 0) \<bar>q\<bar>"

fun dmul :: "double \<Rightarrow> double \<Rightarrow> double" where
  "dmul (Fin s m) (Fin t n) = to_double (s \<noteq> t) (m * n)"
| "dmul (Fin s m) (Inf t) = (if m = 0 then NaN else Inf (s \<noteq> t))"
| "dmul (Inf s) (Fin t n) = (if n = 0 then NaN else Inf (s \<noteq> t))"
| "dmul (Inf s) (Inf t) = Inf (s \<noteq> t)"
| "dmul NaN y = NaN"
| "dmul x NaN = NaN"

fun ddiv :: "double \<Rightarrow> double \<Rightarrow> double" where
  "ddiv (Fin s m) (Fin t n) =
     (if n = 0 then (if m = 0 then NaN else Inf (s \<noteq> t))
      else to_double (s \<noteq> t) (m / n))"
| "ddiv (Fin s m) (Inf t) = Fin (s \<noteq> t) 0"
| "ddiv (Inf s) (Fin t n) = Inf (s \<noteq> t)"
| "ddiv (Inf s) (Inf t) = NaN"
| "ddiv NaN y = NaN"
| "ddiv x NaN = NaN"

primrec value_double :: "expr \<Rightarrow> double option" where
  "value_double (Lit q) = Some (of_literal q)"
| "value_double (Ident x) = None"
| "value_double (Mul a b) =
     (case value_double a of
        None \<Rightarrow> None
      | Some u \<Rightarrow> (case value_double b of None \<Rightarrow> None | Some v \<Rightarrow> Some (dmul u v)))"
| "value_double (Div a b) =
     (case value_double a of
        None \<Rightarrow> None
      | Some u \<Rightarrow> (case value_double b of None \<Rightarrow> None | Some v \<Rightarrow> Some (ddiv u v)))"

definition double_constant :: "macros \<Rightarrow> ident \<Rightarrow> double option" where
  "double_constant ms x = value_double (expand ms (Ident x))"

subsection \<open>Auxiliary notions\<close>

text \<open>What one guarded definition does to the macro table.\<close>

definition define_if_absent :: "ident \<Rightarrow> expr \<Rightarrow> macros \<Rightarrow> macros" where
  "define_if_absent x b ms = (if map_of ms x = None then ms @ [(x, b)] else ms)"

text \<open>An expression without identifiers.\<close>

primrec closed :: "expr \<Rightarrow> bool" where
  "closed (Lit q) = True"
| "closed (Ident x) = False"
| "closed (Mul a b) = (closed a \<and> closed b)"
| "closed (Div a b) = (closed a \<and> closed b)"

text \<open>The definitions of one name in a macro table.\<close>

definition definitions_of :: "ident \<Rightarrow> macros \<Rightarrow> expr list" where
  "definitions_of x ms = map snd (filter (\<lambda>p. fst p = x) ms)"

text \<open>
  The literal that \<^verbatim>\<open>GAMMA_H\<close> stands for after the inclusion, when it stands for a
  literal: the consumer's, when the consumer has defined \<^verbatim>\<open>GAMMA_H\<close> as a literal
  before, and the header's, when the consumer has not defined \<^verbatim>\<open>GAMMA_H\<close>.
\<close>

definition effective_gamma_h :: "macros \<Rightarrow> rat option" where
  "effective_gamma_h ms =
     (case include_header ms of
        Inl e \<Rightarrow> None
      | Inr ms' \<Rightarrow>
          (case map_of ms' ''GAMMA_H'' of
             Some (Lit v) \<Rightarrow> Some v
           | _ \<Rightarrow> None))"

text \<open>
  The value of a use of the name \<open>x\<close> after the header has been included in a translation
  unit whose macro table is \<open>ms\<close> at the place of the inclusion.
\<close>

definition exact_after_include :: "macros \<Rightarrow> ident \<Rightarrow> real option" where
  "exact_after_include ms x =
     (case include_header ms of
        Inl e \<Rightarrow> None
      | Inr ms' \<Rightarrow> exact_constant ms' x)"

definition double_after_include :: "macros \<Rightarrow> ident \<Rightarrow> double option" where
  "double_after_include ms x =
     (case include_header ms of
        Inl e \<Rightarrow> None
      | Inr ms' \<Rightarrow> double_constant ms' x)"

section \<open>Properties of the preprocessor\<close>

subsection \<open>Guarded definitions\<close>

lemma run_guarded:
  "run (Ifndef x [Define x b]) ms = Inr (define_if_absent x b ms)"
  by (simp add: define_if_absent_def split: option.split)

lemma unguarded_redefinition_fails:
  "map_of ms x = Some b \<Longrightarrow> b \<noteq> b' \<Longrightarrow> run (Define x b') ms = Inl (Redefined x)"
  by simp

lemma include_header_eq:
  "include_header ms =
     Inr (define_if_absent ''GAMMA_H_HZ_SQ'' (Mul (Ident ''GAMMA_H_HZ'') (Ident ''GAMMA_H_HZ''))
         (define_if_absent ''GAMMA_H_SQ'' (Mul (Ident ''GAMMA_H'') (Ident ''GAMMA_H''))
         (define_if_absent ''GAMMA_H_HZ'' (Div (Ident ''GAMMA_H'') (Mul (Lit 2) (Ident ''M_PI'')))
         (define_if_absent ''GAMMA_H'' (Lit 267598700) ms))))"
  unfolding include_header_def MRIConstants_h_def
  by (simp only: run_all.simps run_guarded sum.case) simp

lemma map_of_define_if_absent:
  "map_of (define_if_absent x b ms) y =
     (if y = x \<and> map_of ms x = None then Some b else map_of ms y)"
  by (auto simp add: define_if_absent_def map_add_def split: option.split)

lemma define_if_absent_present:
  "map_of ms x = Some b' \<Longrightarrow> define_if_absent x b ms = ms"
  by (simp add: define_if_absent_def)

lemma definitions_of_define_if_absent:
  "definitions_of y (define_if_absent x b ms) =
     (if y = x \<and> map_of ms x = None then definitions_of y ms @ [b] else definitions_of y ms)"
  by (simp add: define_if_absent_def definitions_of_def)

lemma include_header_fixed:
  assumes "\<forall>x\<in>set constant_names. map_of ms x \<noteq> None"
  shows "include_header ms = Inr ms"
  using assms unfolding include_header_eq constant_names_def
  by (auto simp add: define_if_absent_present)

lemma include_header_defines:
  assumes "include_header ms = Inr ms'"
  shows "\<forall>x\<in>set constant_names. map_of ms' x \<noteq> None"
  using assms unfolding include_header_eq constant_names_def
  by (auto simp add: map_of_define_if_absent)

lemma include_header_keeps:
  assumes "include_header ms = Inr ms'" and "map_of ms x = Some b"
  shows "map_of ms' x = Some b"
  using assms unfolding include_header_eq
  by (auto simp add: map_of_define_if_absent)

lemma include_times_fixed:
  "include_header ms = Inr ms \<Longrightarrow> include_times n ms = Inr ms"
  by (induction n) simp_all

subsection \<open>Macro expansion in a larger macro table\<close>

lemma map_of_hide: "map_of (hide x ms) y = (if y = x then None else map_of ms y)"
  unfolding hide_def by (induction ms) auto

lemma hide_map_le: "map_of ms \<subseteq>\<^sub>m map_of ms' \<Longrightarrow> map_of (hide x ms) \<subseteq>\<^sub>m map_of (hide x ms')"
  unfolding map_le_def by (auto simp add: map_of_hide dom_def)

lemma expand_extend:
  "map_of ms \<subseteq>\<^sub>m map_of ms' \<Longrightarrow> closed (expand ms e) \<Longrightarrow> expand ms' e = expand ms e"
proof (induction ms e arbitrary: ms' rule: expand.induct)
  case (2 ms x)
  show ?case
  proof (cases "map_of ms x")
    case None
    with "2.prems" show ?thesis by simp
  next
    case (Some b)
    with "2.prems"(1) have "map_of ms' x = Some b"
      by (auto simp add: map_le_def dom_def)
    moreover have "expand (hide x ms') b = expand (hide x ms) b"
      using "2.IH" [OF Some hide_map_le [OF "2.prems"(1)]] "2.prems"(2) Some by simp
    ultimately show ?thesis using Some by simp
  qed
next
  case (3 ms a b)
  from "3.prems"(2) have "closed (expand ms a)" and "closed (expand ms b)"
    by simp_all
  then have "expand ms' a = expand ms a" and "expand ms' b = expand ms b"
    using "3.IH" "3.prems"(1) by blast+
  then show ?case by simp
next
  case (4 ms a b)
  from "4.prems"(2) have "closed (expand ms a)" and "closed (expand ms b)"
    by simp_all
  then have "expand ms' a = expand ms a" and "expand ms' b = expand ms b"
    using "4.IH" "4.prems"(1) by blast+
  then show ?case by simp
qed simp

lemma value_double_closed: "value_double e = Some d \<Longrightarrow> closed e"
  by (induction e arbitrary: d) (auto split: option.splits)

lemma value_exact_closed: "value_exact e = Some r \<Longrightarrow> closed e"
  by (induction e arbitrary: r) (auto split: option.splits if_splits)

lemma define_if_absent_map_le: "map_of ms \<subseteq>\<^sub>m map_of (define_if_absent x b ms)"
  unfolding map_le_def by (auto simp add: map_of_define_if_absent)

lemma include_header_map_le:
  "include_header ms = Inr ms' \<Longrightarrow> map_of ms \<subseteq>\<^sub>m map_of ms'"
  unfolding include_header_eq
  by (auto intro: map_le_trans [OF _ define_if_absent_map_le] define_if_absent_map_le)

lemma define_if_absent_other:
  "map_of ms x = Some b \<Longrightarrow>
     map_of (define_if_absent y c ms) x = Some b \<and>
     definitions_of x (define_if_absent y c ms) = definitions_of x ms"
  by (auto simp add: definitions_of_define_if_absent map_of_define_if_absent)

lemma include_header_definitions_of:
  assumes "include_header ms = Inr ms'" and "map_of ms x = Some b"
  shows "definitions_of x ms' = definitions_of x ms"
proof -
  note a = define_if_absent_other [OF assms(2)]
  note b = define_if_absent_other [OF a [THEN conjunct1]]
  note c = define_if_absent_other [OF b [THEN conjunct1]]
  note d = define_if_absent_other [OF c [THEN conjunct1]]
  from assms(1) show ?thesis
    unfolding include_header_eq
    using a [THEN conjunct2] b [THEN conjunct2] c [THEN conjunct2] d [THEN conjunct2]
    by (metis sum.inject(2))
qed

lemma expand_macro: "map_of ms x = Some b \<Longrightarrow> expand ms (Ident x) = expand (hide x ms) b"
  by simp

lemma definitions_of_undefined: "map_of ms x = None \<Longrightarrow> definitions_of x ms = []"
  unfolding definitions_of_def by (induction ms) (auto split: if_splits)

subsection \<open>The expansions of the four names\<close>

lemma include_header_result:
  assumes "include_header ms = Inr ms'"
  shows "ms' =
     define_if_absent ''GAMMA_H_HZ_SQ'' (Mul (Ident ''GAMMA_H_HZ'') (Ident ''GAMMA_H_HZ''))
       (define_if_absent ''GAMMA_H_SQ'' (Mul (Ident ''GAMMA_H'') (Ident ''GAMMA_H''))
       (define_if_absent ''GAMMA_H_HZ'' (Div (Ident ''GAMMA_H'') (Mul (Lit 2) (Ident ''M_PI'')))
       (define_if_absent ''GAMMA_H'' (Lit 267598700) ms)))"
  using assms by (simp add: include_header_eq)

lemma include_header_derived:
  assumes "include_header ms = Inr ms'"
  shows "map_of ms ''GAMMA_H_HZ'' = None \<Longrightarrow>
           map_of ms' ''GAMMA_H_HZ'' = Some (Div (Ident ''GAMMA_H'') (Mul (Lit 2) (Ident ''M_PI'')))"
    and "map_of ms ''GAMMA_H_SQ'' = None \<Longrightarrow>
           map_of ms' ''GAMMA_H_SQ'' = Some (Mul (Ident ''GAMMA_H'') (Ident ''GAMMA_H''))"
    and "map_of ms ''GAMMA_H_HZ_SQ'' = None \<Longrightarrow>
           map_of ms' ''GAMMA_H_HZ_SQ'' = Some (Mul (Ident ''GAMMA_H_HZ'') (Ident ''GAMMA_H_HZ''))"
  unfolding include_header_result [OF assms]
  by (simp_all add: map_of_define_if_absent)

lemma include_header_gamma_h:
  assumes "include_header ms = Inr ms'" and "map_of ms ''GAMMA_H'' = None"
  shows "map_of ms' ''GAMMA_H'' = Some (Lit 267598700)"
  using assms(2) unfolding include_header_result [OF assms(1)]
  by (simp add: map_of_define_if_absent)

section \<open>Properties of the rounding\<close>

text \<open>
  \<open>ilog2\<close> is the binary exponent, and a number in the range of the normal doubles is
  rounded to the nearest multiple of the unit in the last place of its binade.
\<close>

lemma ilog2_bounds:
  assumes "0 < q"
  shows "2 powi ilog2 q \<le> q" and "q < 2 powi (ilog2 q + 1)"
proof -
  have "2 powi ilog2 q \<le> q \<and> q < 2 powi (ilog2 q + 1)"
  proof (cases "1 \<le> q")
    case True
    define n where "n = \<lfloor>q\<rfloor>"
    have n: "1 \<le> n" "of_int n \<le> q" "q < of_int (n + 1)"
      using True unfolding n_def by (simp_all add: le_floor_iff) linarith
    then have pos: "0 < n" by simp
    from bitlen_bounds [OF pos]
    have lo: "2 ^ nat (bitlen n - 1) \<le> n" and hi: "n < 2 ^ nat (bitlen n)"
      by simp_all
    have k: "1 \<le> bitlen n"
      using pos by (simp add: bitlen_alt_def)
    have "(2::rat) powi (bitlen n - 1) = of_int (2 ^ nat (bitlen n - 1))"
      using k by (simp add: power_int_nonneg_exp)
    also have "\<dots> \<le> of_int n"
      using lo by (simp only: of_int_le_iff)
    finally have 1: "(2::rat) powi (bitlen n - 1) \<le> q"
      using n(2) by simp
    from hi have "n + 1 \<le> 2 ^ nat (bitlen n)"
      by simp
    then have "(of_int (n + 1) :: rat) \<le> of_int (2 ^ nat (bitlen n))"
      by (simp only: of_int_le_iff)
    also have "\<dots> = 2 powi bitlen n"
      using k by (simp add: power_int_nonneg_exp)
    finally have 2: "q < 2 powi bitlen n"
      using n(3) by simp
    from 1 2 True show ?thesis
      by (simp add: ilog2_def n_def)
  next
    case False
    define d where "d = \<lceil>1 / q\<rceil> - 1"
    from False assms have "1 < 1 / q"
      by simp
    then have d: "1 \<le> d" "of_int d < 1 / q" "1 / q \<le> of_int (d + 1)"
      unfolding d_def by (simp_all add: less_ceiling_iff) linarith+
    then have pos: "0 < d" by simp
    from bitlen_bounds [OF pos]
    have lo: "2 ^ nat (bitlen d - 1) \<le> d" and hi: "d < 2 ^ nat (bitlen d)"
      by simp_all
    have k: "1 \<le> bitlen d"
      using pos by (simp add: bitlen_alt_def)
    from hi have "d + 1 \<le> 2 ^ nat (bitlen d)"
      by simp
    then have "(of_int (d + 1) :: rat) \<le> of_int (2 ^ nat (bitlen d))"
      by (simp only: of_int_le_iff)
    with d(3) have "1 / q \<le> 2 ^ nat (bitlen d)"
      by simp
    with assms have "1 / 2 ^ nat (bitlen d) \<le> q"
      by (simp add: field_simps)
    moreover have "(2::rat) powi (- bitlen d) = 1 / 2 ^ nat (bitlen d)"
      using k by (simp add: power_int_minus_divide power_int_nonneg_exp)
    ultimately have 1: "(2::rat) powi (- bitlen d) \<le> q"
      by simp
    have "(of_int (2 ^ nat (bitlen d - 1)) :: rat) \<le> of_int d"
      using lo by (simp only: of_int_le_iff)
    then have "(2::rat) ^ nat (bitlen d - 1) \<le> of_int d"
      by simp
    then have "2 ^ nat (bitlen d - 1) < 1 / q"
      using d(2) by (rule le_less_trans)
    with assms have "q < 1 / 2 ^ nat (bitlen d - 1)"
      by (simp add: field_simps)
    moreover have "(2::rat) powi (- bitlen d + 1) = 1 / 2 ^ nat (bitlen d - 1)"
      using k power_int_minus_divide [of "2::rat" "bitlen d - 1"]
      by (simp add: power_int_nonneg_exp)
    ultimately have 2: "q < 2 powi (- bitlen d + 1)"
      by simp
    from 1 2 False show ?thesis
      by (simp add: ilog2_def d_def)
  qed
  then show "2 powi ilog2 q \<le> q" and "q < 2 powi (ilog2 q + 1)"
    by simp_all
qed

lemma power_int_2_less_cancel:
  assumes "(2::rat) powi m < 2 powi n"
  shows "m < n"
proof (rule ccontr)
  assume "\<not> m < n"
  then have "(2::rat) powi n \<le> 2 powi m"
    by (intro power_int_increasing) simp_all
  with assms show False by simp
qed

lemma ilog2_unique:
  assumes "2 powi k \<le> q" and "q < 2 powi (k + 1)"
  shows "ilog2 q = k"
proof -
  have "0 < (2::rat) powi k"
    by (simp add: zero_less_power_int)
  then have pos: "0 < q"
    using assms(1) by (rule less_le_trans)
  note b = ilog2_bounds [OF pos]
  have "(2::rat) powi k < 2 powi (ilog2 q + 1)"
    using assms(1) b(2) by (rule le_less_trans)
  then have 1: "k < ilog2 q + 1"
    by (rule power_int_2_less_cancel)
  have "(2::rat) powi ilog2 q < 2 powi (k + 1)"
    using b(1) assms(2) by (rule le_less_trans)
  then have 2: "ilog2 q < k + 1"
    by (rule power_int_2_less_cancel)
  from 1 2 show ?thesis by simp
qed


lemma round_half_even_unique:
  assumes "of_int m - 1 / 2 < x" and "x < of_int m + 1 / 2"
  shows "round_half_even x = m"
proof (cases "of_int m \<le> x")
  case True
  with assms(2) have "\<lfloor>x\<rfloor> = m"
    by (simp add: floor_unique)
  with assms(2) show ?thesis
    by (simp add: round_half_even_def)
next
  case False
  with assms(1) have "\<lfloor>x\<rfloor> = m - 1"
    by (simp add: floor_unique)
  with assms(1) show ?thesis
    by (simp add: round_half_even_def)
qed

lemma to_double_normal:
  assumes "2 powi k \<le> q" and "q < 2 powi (k + 1)" and "- 1022 \<le> k"
    and "(of_int m - 1 / 2) * 2 powi (k - 52) < q"
    and "q < (of_int m + 1 / 2) * 2 powi (k - 52)"
    and "of_int m * 2 powi (k - 52) = v" and "v < 2 ^ 1024"
  shows "to_double s q = Fin s v"
proof -
  have "0 < (2::rat) powi k"
    by (simp add: zero_less_power_int)
  then have "0 < q"
    using assms(1) by (rule less_le_trans)
  moreover have "max (ilog2 q - 52) (- 1074) = k - 52"
    using ilog2_unique [OF assms(1,2)] assms(3) by simp
  moreover have "round_half_even (q / 2 powi (k - 52)) = m"
    using assms(4,5) by (intro round_half_even_unique) (simp_all add: field_simps)
  ultimately show ?thesis
    using assms(6,7) by (simp add: to_double_def Let_def)
qed

text \<open>
  In the range of the normal doubles the rounding is total and its relative error is at
  most \<open>2 ^ 53\<close>-th of the number.
\<close>

lemma round_half_even_error: "\<bar>of_int (round_half_even x) - x\<bar> \<le> 1 / 2"
proof -
  define r where "r = x - of_int \<lfloor>x\<rfloor>"
  have r: "0 \<le> r" "r < 1"
    unfolding r_def by linarith+
  have x: "x = of_int \<lfloor>x\<rfloor> + r"
    by (simp add: r_def)
  consider "r < 1 / 2" | "1 / 2 < r" | "r = 1 / 2"
    by linarith
  then show ?thesis
  proof cases
    case 1
    then have "round_half_even x = \<lfloor>x\<rfloor>"
      by (simp add: round_half_even_def r_def)
    with 1 r show ?thesis
      by (simp add: r_def)
  next
    case 2
    then have "round_half_even x = \<lfloor>x\<rfloor> + 1"
      by (simp add: round_half_even_def r_def)
    with 2 r show ?thesis
      using x by simp
  next
    case 3
    then have "round_half_even x = \<lfloor>x\<rfloor> \<or> round_half_even x = \<lfloor>x\<rfloor> + 1"
      by (simp add: round_half_even_def r_def Let_def)
    with 3 show ?thesis
      using x by auto
  qed
qed

lemma to_double_error:
  assumes "2 powi (- 1022) \<le> q" and "q \<le> 2 ^ 1023"
  shows "\<exists>v. to_double s q = Fin s v \<and> \<bar>v - q\<bar> \<le> q / 2 ^ 53"
proof -
  define k where "k = ilog2 q"
  define P :: rat where "P = 2 powi (k - 52)"
  define v where "v = of_int (round_half_even (q / P)) * P"
  have "0 < (2::rat) powi (- 1022)"
    by (simp add: zero_less_power_int)
  then have pos: "0 < q"
    using assms(1) by (rule less_le_trans)
  note b = ilog2_bounds [OF pos, folded k_def]
  have "(2::rat) powi (- 1022) < 2 powi (k + 1)"
    using assms(1) b(2) by (rule le_less_trans)
  then have k: "- 1022 \<le> k"
    using power_int_2_less_cancel [of "- 1022" "k + 1"] by simp
  have P: "0 < P" "P * 2 ^ 52 = 2 powi k"
    unfolding P_def by (simp_all add: zero_less_power_int power_int_diff)
  have "\<bar>of_int (round_half_even (q / P)) - q / P\<bar> * P \<le> 1 / 2 * P"
    using round_half_even_error [of "q / P"] P(1) by (intro mult_right_mono) simp_all
  moreover have "\<bar>of_int (round_half_even (q / P)) - q / P\<bar> * P = \<bar>v - q\<bar>"
  proof -
    have "(of_int (round_half_even (q / P)) - q / P) * P = v - q"
      using P(1) by (simp add: v_def left_diff_distrib)
    then have "\<bar>v - q\<bar> = \<bar>of_int (round_half_even (q / P)) - q / P\<bar> * \<bar>P\<bar>"
      by (simp only: abs_mult [symmetric])
    with P(1) show ?thesis
      by simp
  qed
  ultimately have "\<bar>v - q\<bar> \<le> P / 2"
    by simp
  also have "P / 2 = 2 powi k / 2 ^ 53"
    using P(2) by (simp add: field_simps)
  also have "\<dots> \<le> q / 2 ^ 53"
    using b(1) by (simp add: divide_right_mono)
  finally have err: "\<bar>v - q\<bar> \<le> q / 2 ^ 53" .
  then have "v \<le> q + q / 2 ^ 53"
    by linarith
  also have "\<dots> \<le> 2 ^ 1023 + 2 ^ 1023 / 2 ^ 53"
    using assms(2) by (intro add_mono divide_right_mono) simp_all
  also have "\<dots> < (2::rat) ^ 1024"
    by simp
  finally have "\<not> 2 ^ 1024 \<le> v"
    by simp
  moreover have "max (ilog2 q - 52) (- 1074) = k - 52"
    using k by (simp add: k_def)
  ultimately have "to_double s q = Fin s v"
    using pos by (simp add: to_double_def Let_def v_def P_def)
  with err show ?thesis
    by blast
qed

lemma dmul_error:
  assumes "2 powi (- 1022) \<le> m * n" and "m * n \<le> 2 ^ 1023"
  shows "\<exists>v. dmul (Fin s m) (Fin t n) = Fin (s \<noteq> t) v \<and> \<bar>v - m * n\<bar> \<le> m * n / 2 ^ 53"
  using to_double_error [OF assms] by simp

lemma ddiv_error:
  assumes "n \<noteq> 0" and "2 powi (- 1022) \<le> m / n" and "m / n \<le> 2 ^ 1023"
  shows "\<exists>v. ddiv (Fin s m) (Fin t n) = Fin (s \<noteq> t) v \<and> \<bar>v - m / n\<bar> \<le> m / n / 2 ^ 53"
  using to_double_error [OF assms(2,3)] assms(1) by simp

subsection \<open>The doubles of the literals and of the operations of the header\<close>

lemma literal_267598700: "of_literal 267598700 = Fin False 267598700"
  unfolding of_literal_def
  by (simp, rule to_double_normal [where k = 27 and m = 8979122382438400]) simp_all

lemma literal_2: "of_literal 2 = Fin False 2"
  unfolding of_literal_def
  by (simp, rule to_double_normal [where k = 1 and m = 4503599627370496]) simp_all

lemma literal_m_pi:
  "of_literal 3.14159265358979323846 = Fin False (884279719003555 / 2 ^ 48)"
  unfolding of_literal_def
  by (simp, rule to_double_normal [where k = 1 and m = 7074237752028440]) simp_all

lemma double_two_pi:
  "dmul (Fin False 2) (Fin False (884279719003555 / 2 ^ 48)) =
     Fin False (884279719003555 / 2 ^ 47)"
  by (simp, rule to_double_normal [where k = 2 and m = 7074237752028440]) simp_all

lemma double_quotient:
  "ddiv (Fin False 267598700) (Fin False (884279719003555 / 2 ^ 47)) =
     Fin False (5716286847168589 / 2 ^ 27)"
  by (simp, rule to_double_normal [where k = 25 and m = 5716286847168589]) simp_all

lemma double_square:
  "dmul (Fin False 267598700) (Fin False 267598700) = Fin False 71609064241690000"
  by (simp, rule to_double_normal [where k = 55 and m = 8951133030211250]) simp_all

lemma double_quotient_square:
  "dmul (Fin False (5716286847168589 / 2 ^ 27)) (Fin False (5716286847168589 / 2 ^ 27)) =
     Fin False 1813878787122059"
  by (simp, rule to_double_normal [where k = 50 and m = 7255515148488236]) simp_all

section \<open>The values of the four names after the inclusion\<close>

text \<open>
  The expansions and the values of the four names after the inclusion, for a literal
  \<^verbatim>\<open>GAMMA_H\<close> (the header's or the consumer's) and a literal \<^verbatim>\<open>M_PI\<close>, each under the
  condition that the consumer has not defined the derived names it depends on.
\<close>

lemma after_include_eq:
  assumes "include_header ms = Inr ms'"
  shows "exact_after_include ms x = exact_constant ms' x"
    and "double_after_include ms x = double_constant ms' x"
  using assms by (simp_all add: exact_after_include_def double_after_include_def)

lemma effective_gamma_h_eq:
  assumes "effective_gamma_h ms = Some v" and "include_header ms = Inr ms'"
  shows "map_of ms' ''GAMMA_H'' = Some (Lit v)"
proof (cases "map_of ms' ''GAMMA_H''")
  case None
  with assms show ?thesis
    by (simp add: effective_gamma_h_def)
next
  case (Some b)
  with assms show ?thesis
    by (cases b) (simp_all add: effective_gamma_h_def)
qed

lemma expand_literal: "map_of T x = Some (Lit q) \<Longrightarrow> expand T (Ident x) = Lit q"
  by simp

lemma expand_hz:
  assumes "map_of T ''GAMMA_H'' = Some (Lit v)"
    and "map_of T ''M_PI'' = Some (Lit p)"
    and "map_of T ''GAMMA_H_HZ'' = Some (Div (Ident ''GAMMA_H'') (Mul (Lit 2) (Ident ''M_PI'')))"
  shows "expand T (Ident ''GAMMA_H_HZ'') = Div (Lit v) (Mul (Lit 2) (Lit p))"
  using assms by (simp add: map_of_hide)

lemma expand_sq:
  assumes "map_of T ''GAMMA_H'' = Some (Lit v)"
    and "map_of T ''GAMMA_H_SQ'' = Some (Mul (Ident ''GAMMA_H'') (Ident ''GAMMA_H''))"
  shows "expand T (Ident ''GAMMA_H_SQ'') = Mul (Lit v) (Lit v)"
  using assms by (simp add: map_of_hide)

lemma expand_hz_sq:
  assumes "map_of T ''GAMMA_H'' = Some (Lit v)"
    and "map_of T ''M_PI'' = Some (Lit p)"
    and "map_of T ''GAMMA_H_HZ'' = Some (Div (Ident ''GAMMA_H'') (Mul (Lit 2) (Ident ''M_PI'')))"
    and "map_of T ''GAMMA_H_HZ_SQ'' = Some (Mul (Ident ''GAMMA_H_HZ'') (Ident ''GAMMA_H_HZ''))"
  shows "expand T (Ident ''GAMMA_H_HZ_SQ'') =
           Mul (Div (Lit v) (Mul (Lit 2) (Lit p))) (Div (Lit v) (Mul (Lit 2) (Lit p)))"
  using assms by (simp add: map_of_hide)

lemma expansion_m_pi:
  assumes "include_header ms = Inr ms'" and "map_of ms ''M_PI'' = Some (Lit p)"
  shows "expand ms' (Ident ''M_PI'') = Lit p"
  by (rule expand_literal) (rule include_header_keeps [OF assms])

lemma expansion_gamma_h:
  assumes "include_header ms = Inr ms'" and "effective_gamma_h ms = Some v"
  shows "expand ms' (Ident ''GAMMA_H'') = Lit v"
  by (rule expand_literal) (rule effective_gamma_h_eq [OF assms(2,1)])

lemma expansion_gamma_h_hz:
  assumes "include_header ms = Inr ms'" and "effective_gamma_h ms = Some v"
    and "map_of ms ''M_PI'' = Some (Lit p)"
    and "map_of ms ''GAMMA_H_HZ'' = None"
  shows "expand ms' (Ident ''GAMMA_H_HZ'') = Div (Lit v) (Mul (Lit 2) (Lit p))"
  by (rule expand_hz [OF effective_gamma_h_eq [OF assms(2,1)] include_header_keeps [OF assms(1,3)]
        include_header_derived(1) [OF assms(1,4)]])

lemma expansion_gamma_h_sq:
  assumes "include_header ms = Inr ms'" and "effective_gamma_h ms = Some v"
    and "map_of ms ''GAMMA_H_SQ'' = None"
  shows "expand ms' (Ident ''GAMMA_H_SQ'') = Mul (Lit v) (Lit v)"
  by (rule expand_sq [OF effective_gamma_h_eq [OF assms(2,1)]
        include_header_derived(2) [OF assms(1,3)]])

lemma expansion_gamma_h_hz_sq:
  assumes "include_header ms = Inr ms'" and "effective_gamma_h ms = Some v"
    and "map_of ms ''M_PI'' = Some (Lit p)"
    and "map_of ms ''GAMMA_H_HZ'' = None"
    and "map_of ms ''GAMMA_H_HZ_SQ'' = None"
  shows "expand ms' (Ident ''GAMMA_H_HZ_SQ'') =
           Mul (Div (Lit v) (Mul (Lit 2) (Lit p))) (Div (Lit v) (Mul (Lit 2) (Lit p)))"
  by (rule expand_hz_sq [OF effective_gamma_h_eq [OF assms(2,1)] include_header_keeps [OF assms(1,3)]
        include_header_derived(1) [OF assms(1,4)] include_header_derived(3) [OF assms(1,5)]])

lemma include_header_succeeds: "\<exists>ms'. include_header ms = Inr ms'"
  by (simp add: include_header_eq)

lemma exact_m_pi:
  assumes "map_of ms ''M_PI'' = Some (Lit p)"
  shows "exact_after_include ms ''M_PI'' = Some (of_rat p)"
proof -
  obtain ms' where inc: "include_header ms = Inr ms'"
    using include_header_succeeds by blast
  show ?thesis
    unfolding after_include_eq [OF inc] exact_constant_def expansion_m_pi [OF inc assms]
    by simp
qed

lemma exact_gamma_h:
  assumes "effective_gamma_h ms = Some v"
  shows "exact_after_include ms ''GAMMA_H'' = Some (of_rat v)"
proof -
  obtain ms' where inc: "include_header ms = Inr ms'"
    using include_header_succeeds by blast
  show ?thesis
    unfolding after_include_eq [OF inc] exact_constant_def expansion_gamma_h [OF inc assms]
    by simp
qed

lemma exact_gamma_h_hz:
  assumes "effective_gamma_h ms = Some v"
    and "map_of ms ''M_PI'' = Some (Lit p)"
    and "map_of ms ''GAMMA_H_HZ'' = None"
    and "p \<noteq> 0"
  shows "exact_after_include ms ''GAMMA_H_HZ'' = Some (of_rat v / (2 * of_rat p))"
proof -
  obtain ms' where inc: "include_header ms = Inr ms'"
    using include_header_succeeds by blast
  show ?thesis
    unfolding after_include_eq [OF inc] exact_constant_def
      expansion_gamma_h_hz [OF inc assms(1-3)]
    using \<open>p \<noteq> 0\<close> by simp
qed

lemma exact_gamma_h_sq:
  assumes "effective_gamma_h ms = Some v"
    and "map_of ms ''GAMMA_H_SQ'' = None"
  shows "exact_after_include ms ''GAMMA_H_SQ'' = Some (of_rat v * of_rat v)"
proof -
  obtain ms' where inc: "include_header ms = Inr ms'"
    using include_header_succeeds by blast
  show ?thesis
    unfolding after_include_eq [OF inc] exact_constant_def
      expansion_gamma_h_sq [OF inc assms]
    by simp
qed

lemma exact_gamma_h_hz_sq:
  assumes "effective_gamma_h ms = Some v"
    and "map_of ms ''M_PI'' = Some (Lit p)"
    and "map_of ms ''GAMMA_H_HZ'' = None"
    and "map_of ms ''GAMMA_H_HZ_SQ'' = None"
    and "p \<noteq> 0"
  shows "exact_after_include ms ''GAMMA_H_HZ_SQ'' =
           Some (of_rat v / (2 * of_rat p) * (of_rat v / (2 * of_rat p)))"
proof -
  obtain ms' where inc: "include_header ms = Inr ms'"
    using include_header_succeeds by blast
  show ?thesis
    unfolding after_include_eq [OF inc] exact_constant_def
      expansion_gamma_h_hz_sq [OF inc assms(1-4)]
    using \<open>p \<noteq> 0\<close> by simp
qed

lemma double_m_pi:
  assumes "map_of ms ''M_PI'' = Some (Lit p)"
  shows "double_after_include ms ''M_PI'' = Some (of_literal p)"
proof -
  obtain ms' where inc: "include_header ms = Inr ms'"
    using include_header_succeeds by blast
  show ?thesis
    unfolding after_include_eq [OF inc] double_constant_def expansion_m_pi [OF inc assms]
    by simp
qed

lemma double_gamma_h:
  assumes "effective_gamma_h ms = Some v"
  shows "double_after_include ms ''GAMMA_H'' = Some (of_literal v)"
proof -
  obtain ms' where inc: "include_header ms = Inr ms'"
    using include_header_succeeds by blast
  show ?thesis
    unfolding after_include_eq [OF inc] double_constant_def expansion_gamma_h [OF inc assms]
    by simp
qed

lemma double_gamma_h_hz:
  assumes "effective_gamma_h ms = Some v"
    and "map_of ms ''M_PI'' = Some (Lit p)"
    and "map_of ms ''GAMMA_H_HZ'' = None"
  shows "double_after_include ms ''GAMMA_H_HZ'' =
           Some (ddiv (of_literal v) (dmul (of_literal 2) (of_literal p)))"
proof -
  obtain ms' where inc: "include_header ms = Inr ms'"
    using include_header_succeeds by blast
  show ?thesis
    unfolding after_include_eq [OF inc] double_constant_def
      expansion_gamma_h_hz [OF inc assms]
    by simp
qed

lemma double_gamma_h_sq:
  assumes "effective_gamma_h ms = Some v"
    and "map_of ms ''GAMMA_H_SQ'' = None"
  shows "double_after_include ms ''GAMMA_H_SQ'' = Some (dmul (of_literal v) (of_literal v))"
proof -
  obtain ms' where inc: "include_header ms = Inr ms'"
    using include_header_succeeds by blast
  show ?thesis
    unfolding after_include_eq [OF inc] double_constant_def
      expansion_gamma_h_sq [OF inc assms]
    by simp
qed

lemma double_gamma_h_hz_sq:
  assumes "effective_gamma_h ms = Some v"
    and "map_of ms ''M_PI'' = Some (Lit p)"
    and "map_of ms ''GAMMA_H_HZ'' = None"
    and "map_of ms ''GAMMA_H_HZ_SQ'' = None"
  shows "double_after_include ms ''GAMMA_H_HZ_SQ'' =
           Some (dmul (ddiv (of_literal v) (dmul (of_literal 2) (of_literal p)))
                      (ddiv (of_literal v) (dmul (of_literal 2) (of_literal p))))"
proof -
  obtain ms' where inc: "include_header ms = Inr ms'"
    using include_header_succeeds by blast
  show ?thesis
    unfolding after_include_eq [OF inc] double_constant_def
      expansion_gamma_h_hz_sq [OF inc assms]
    by simp
qed

subsection \<open>The header's literal and the host's \<open>\<pi>\<close>\<close>

lemma host_macros_undefined:
  "map_of host_macros ''GAMMA_H'' = None"
  "map_of host_macros ''GAMMA_H_HZ'' = None"
  "map_of host_macros ''GAMMA_H_SQ'' = None"
  "map_of host_macros ''GAMMA_H_HZ_SQ'' = None"
  "map_of host_macros ''M_PI'' = Some (Lit 3.14159265358979323846)"
  by (simp_all add: host_macros_def)

lemma effective_gamma_h_default:
  assumes "map_of ms ''GAMMA_H'' = None"
  shows "effective_gamma_h ms = Some 267598700"
proof -
  obtain ms' where inc: "include_header ms = Inr ms'"
    using include_header_succeeds by blast
  with include_header_gamma_h [OF inc assms] show ?thesis
    by (simp add: effective_gamma_h_def)
qed

lemma effective_gamma_h_literal:
  assumes "map_of ms ''GAMMA_H'' = Some (Lit v)"
  shows "effective_gamma_h ms = Some v"
proof -
  obtain ms' where inc: "include_header ms = Inr ms'"
    using include_header_succeeds by blast
  with include_header_keeps [OF inc assms] show ?thesis
    by (simp add: effective_gamma_h_def)
qed

lemma host_double_gamma_h:
  assumes "effective_gamma_h ms = Some 267598700"
  shows "double_after_include ms ''GAMMA_H'' = Some (Fin False 267598700)"
  by (simp only: double_gamma_h [OF assms] literal_267598700)

lemma host_double_m_pi:
  assumes "map_of ms ''M_PI'' = Some (Lit 3.14159265358979323846)"
  shows "double_after_include ms ''M_PI'' = Some (Fin False (884279719003555 / 2 ^ 48))"
  by (simp only: double_m_pi [OF assms] literal_m_pi)

lemma host_double_gamma_h_hz:
  assumes "effective_gamma_h ms = Some 267598700"
    and "map_of ms ''M_PI'' = Some (Lit 3.14159265358979323846)"
    and "map_of ms ''GAMMA_H_HZ'' = None"
  shows "double_after_include ms ''GAMMA_H_HZ'' = Some (Fin False (5716286847168589 / 2 ^ 27))"
  by (simp only: double_gamma_h_hz [OF assms] literal_267598700 literal_2 literal_m_pi
        double_two_pi double_quotient)

lemma host_double_gamma_h_sq:
  assumes "effective_gamma_h ms = Some 267598700"
    and "map_of ms ''GAMMA_H_SQ'' = None"
  shows "double_after_include ms ''GAMMA_H_SQ'' = Some (Fin False 71609064241690000)"
  by (simp only: double_gamma_h_sq [OF assms] literal_267598700 double_square)

lemma host_double_gamma_h_hz_sq:
  assumes "effective_gamma_h ms = Some 267598700"
    and "map_of ms ''M_PI'' = Some (Lit 3.14159265358979323846)"
    and "map_of ms ''GAMMA_H_HZ'' = None"
    and "map_of ms ''GAMMA_H_HZ_SQ'' = None"
  shows "double_after_include ms ''GAMMA_H_HZ_SQ'' = Some (Fin False 1813878787122059)"
  by (simp only: double_gamma_h_hz_sq [OF assms] literal_267598700 literal_2 literal_m_pi
        double_two_pi double_quotient double_quotient_square)

section \<open>The constants of the header\<close>

text \<open>
  C1 (as amended): with \<^verbatim>\<open>GAMMA_H\<close> the header's \<open>267.5987 * 10 ^ 6\<close> and the host's
  \<^verbatim>\<open>M_PI\<close>, \<^verbatim>\<open>GAMMA_H_HZ\<close> is \<open>42589655.87\<close> to two decimal places, in exact arithmetic
  and as a double.
\<close>

theorem gamma_h_hz_value:
  "(\<exists>h. exact_after_include host_macros ''GAMMA_H_HZ'' = Some h \<and> \<bar>h - 42589655.87\<bar> \<le> 0.005) \<and>
   (\<exists>d. double_after_include host_macros ''GAMMA_H_HZ'' = Some (Fin False d) \<and>
        \<bar>d - 42589655.87\<bar> \<le> 0.005)"
proof (intro conjI exI)
  note u = host_macros_undefined
  show "exact_after_include host_macros ''GAMMA_H_HZ'' =
      Some (of_rat 267598700 / (2 * of_rat 3.14159265358979323846))"
    by (rule exact_gamma_h_hz [OF effective_gamma_h_default [OF u(1)] u(5) u(2)]) simp
  show "\<bar>of_rat 267598700 / (2 * of_rat 3.14159265358979323846) - 42589655.87 :: real\<bar> \<le> 0.005"
    by (simp add: of_rat_divide)
  show "double_after_include host_macros ''GAMMA_H_HZ'' =
      Some (Fin False (5716286847168589 / 2 ^ 27))"
    by (rule host_double_gamma_h_hz [OF effective_gamma_h_default [OF u(1)] u(5) u(2)])
  show "\<bar>5716286847168589 / 2 ^ 27 - 42589655.87 :: rat\<bar> \<le> 0.005"
    by simp
qed

text \<open>
  C1 as stated fails: the value of \<^verbatim>\<open>GAMMA_H_HZ\<close> is more than \<open>12176\<close> away from
  \<open>42577478.92\<close>, in exact arithmetic and as a double. That is \<open>2.8\<close> parts in
  \<open>10 ^ 4\<close>, where a rounding error of doubles is about one part in \<open>10 ^ 16\<close>.
\<close>

theorem gamma_h_hz_value_counterexample:
  "exact_after_include host_macros ''GAMMA_H_HZ'' = Some (267598700 / (2 * 3.14159265358979323846)) \<and>
   12176 < \<bar>267598700 / (2 * 3.14159265358979323846) - 42577478.92 :: real\<bar> \<and>
   double_after_include host_macros ''GAMMA_H_HZ'' = Some (Fin False (5716286847168589 / 2 ^ 27)) \<and>
   12176 < \<bar>5716286847168589 / 2 ^ 27 - 42577478.92 :: rat\<bar>"
proof (intro conjI)
  note u = host_macros_undefined
  have "exact_after_include host_macros ''GAMMA_H_HZ'' =
      Some (of_rat 267598700 / (2 * of_rat 3.14159265358979323846))"
    by (rule exact_gamma_h_hz [OF effective_gamma_h_default [OF u(1)] u(5) u(2)]) simp
  then show "exact_after_include host_macros ''GAMMA_H_HZ'' =
      Some (267598700 / (2 * 3.14159265358979323846))"
    by (simp add: of_rat_divide)
  show "12176 < \<bar>267598700 / (2 * 3.14159265358979323846) - 42577478.92 :: real\<bar>"
    by simp
  show "double_after_include host_macros ''GAMMA_H_HZ'' =
      Some (Fin False (5716286847168589 / 2 ^ 27))"
    by (rule host_double_gamma_h_hz [OF effective_gamma_h_default [OF u(1)] u(5) u(2)])
  show "12176 < \<bar>5716286847168589 / 2 ^ 27 - 42577478.92 :: rat\<bar>"
    by simp
qed

text \<open>
  C2 (as amended): \<^verbatim>\<open>GAMMA_H_SQ\<close> is \<open>71609064241690000\<close>, the square of \<open>267598700\<close>,
  in exact arithmetic, and the double product is that number without rounding.
\<close>

theorem gamma_h_sq_value:
  "exact_after_include host_macros ''GAMMA_H_SQ'' = Some 71609064241690000 \<and>
   double_after_include host_macros ''GAMMA_H_SQ'' = Some (Fin False 71609064241690000)"
proof
  note u = host_macros_undefined
  show "exact_after_include host_macros ''GAMMA_H_SQ'' = Some 71609064241690000"
    using exact_gamma_h_sq [OF effective_gamma_h_default [OF u(1)] u(3)] by simp
  show "double_after_include host_macros ''GAMMA_H_SQ'' = Some (Fin False 71609064241690000)"
    by (rule host_double_gamma_h_sq [OF effective_gamma_h_default [OF u(1)] u(3)])
qed

text \<open>
  C2 as stated fails: the value of \<^verbatim>\<open>GAMMA_H_SQ\<close> differs from \<open>71628279419690000\<close> by
  \<open>19215178000000\<close>, which is more than \<open>2\<close> parts in \<open>10 ^ 4\<close> of the value, where a
  rounding error of doubles is about one part in \<open>10 ^ 16\<close>.
\<close>

theorem gamma_h_sq_value_counterexample:
  "exact_after_include host_macros ''GAMMA_H_SQ'' = Some 71609064241690000 \<and>
   double_after_include host_macros ''GAMMA_H_SQ'' = Some (Fin False 71609064241690000) \<and>
   \<bar>71609064241690000 - 71628279419690000 :: rat\<bar> = 19215178000000 \<and>
   2 * (71609064241690000 :: rat) / 10 ^ 4 < 19215178000000"
proof (intro conjI)
  note u = host_macros_undefined
  show "exact_after_include host_macros ''GAMMA_H_SQ'' = Some 71609064241690000"
    using exact_gamma_h_sq [OF effective_gamma_h_default [OF u(1)] u(3)] by simp
  show "double_after_include host_macros ''GAMMA_H_SQ'' = Some (Fin False 71609064241690000)"
    by (rule host_double_gamma_h_sq [OF effective_gamma_h_default [OF u(1)] u(3)])
qed simp_all

text \<open>
  C3: when the consumer has not defined \<^verbatim>\<open>GAMMA_H\<close> before the header is included,
  then afterwards \<^verbatim>\<open>GAMMA_H\<close> is defined, once, as the literal \<open>267.5987 * 10 ^ 6\<close>; its
  value is that number, in exact arithmetic and as a double (the number is an integer
  below \<open>2 ^ 53\<close>, so the literal is converted without rounding).
\<close>

theorem gamma_h_is_literal:
  assumes "map_of ms ''GAMMA_H'' = None"
  shows "\<exists>ms'. include_header ms = Inr ms' \<and>
           map_of ms' ''GAMMA_H'' = Some (Lit (267.5987 * 10 ^ 6)) \<and>
           definitions_of ''GAMMA_H'' ms' = [Lit (267.5987 * 10 ^ 6)] \<and>
           exact_constant ms' ''GAMMA_H'' = Some (267.5987 * 10 ^ 6) \<and>
           double_constant ms' ''GAMMA_H'' = Some (Fin False (267.5987 * 10 ^ 6))"
proof -
  obtain ms' where inc: "include_header ms = Inr ms'"
    by (simp add: include_header_eq)
  have m: "map_of (define_if_absent ''GAMMA_H'' (Lit 267598700) ms) ''GAMMA_H'' = Some (Lit 267598700)"
    using assms by (simp add: map_of_define_if_absent)
  have "definitions_of ''GAMMA_H'' ms = []"
    using assms by (rule definitions_of_undefined)
  then have n: "definitions_of ''GAMMA_H'' (define_if_absent ''GAMMA_H'' (Lit 267598700) ms) = [Lit 267598700]"
    using assms by (simp add: definitions_of_define_if_absent)
  note b = define_if_absent_other [OF m]
  note c = define_if_absent_other [OF b [THEN conjunct1]]
  note d = define_if_absent_other [OF c [THEN conjunct1]]
  have 1: "map_of ms' ''GAMMA_H'' = Some (Lit 267598700)"
    using inc d [THEN conjunct1] unfolding include_header_eq by (metis sum.inject(2))
  have 2: "definitions_of ''GAMMA_H'' ms' = [Lit 267598700]"
    using inc n b [THEN conjunct2] c [THEN conjunct2] d [THEN conjunct2]
    unfolding include_header_eq by (metis sum.inject(2))
  have 3: "exact_constant ms' ''GAMMA_H'' = Some 267598700"
    unfolding exact_constant_def expand_macro [OF 1] by simp
  have 4: "double_constant ms' ''GAMMA_H'' = Some (Fin False 267598700)"
    unfolding double_constant_def expand_macro [OF 1] by (simp add: literal_267598700)
  from inc 1 2 3 4 show ?thesis by simp
qed

theorem gamma_h_is_literal_witness:
  "map_of host_macros ''GAMMA_H'' = None \<and>
   (\<exists>ms'. include_header host_macros = Inr ms' \<and>
      map_of ms' ''GAMMA_H'' = Some (Lit (267.5987 * 10 ^ 6)) \<and>
      definitions_of ''GAMMA_H'' ms' = [Lit (267.5987 * 10 ^ 6)] \<and>
      exact_constant ms' ''GAMMA_H'' = Some (267.5987 * 10 ^ 6) \<and>
      double_constant ms' ''GAMMA_H'' = Some (Fin False (267.5987 * 10 ^ 6)))"
proof -
  have h: "map_of host_macros ''GAMMA_H'' = None"
    by (simp add: host_macros_def)
  from gamma_h_is_literal [OF h] h show ?thesis
    by simp
qed

text \<open>
  C4: \<^verbatim>\<open>GAMMA_H_HZ\<close> is \<^verbatim>\<open>GAMMA_H\<close> divided by \<open>2 * M_PI\<close>. When the consumer has
  not defined \<^verbatim>\<open>GAMMA_H_HZ\<close>, and \<^verbatim>\<open>GAMMA_H\<close> and \<^verbatim>\<open>M_PI\<close> are literals \<open>v\<close> and \<open>p\<close>,
  then after the inclusion \<^verbatim>\<open>GAMMA_H_HZ\<close> is defined as \<^verbatim>\<open>(GAMMA_H / (2 * M_PI))\<close>; in
  exact arithmetic its value is the quotient of the values of \<^verbatim>\<open>GAMMA_H\<close> and of twice
  \<^verbatim>\<open>M_PI\<close>, and multiplied by twice \<^verbatim>\<open>M_PI\<close> it gives \<^verbatim>\<open>GAMMA_H\<close> back; in double
  arithmetic its value is the double quotient of the same doubles; and for the header's
  \<^verbatim>\<open>GAMMA_H\<close> and the host's \<^verbatim>\<open>M_PI\<close> the double multiplied by twice \<^verbatim>\<open>M_PI\<close> differs
  from \<^verbatim>\<open>GAMMA_H\<close> by at most the \<open>2 ^ 53\<close>-th part of \<^verbatim>\<open>GAMMA_H\<close>.
\<close>

theorem gamma_h_hz_is_quotient:
  assumes "effective_gamma_h ms = Some v"
    and "map_of ms ''M_PI'' = Some (Lit p)"
    and "map_of ms ''GAMMA_H_HZ'' = None"
    and "p \<noteq> 0"
  shows "(\<exists>ms'. include_header ms = Inr ms' \<and>
        map_of ms' ''GAMMA_H_HZ'' = Some (Div (Ident ''GAMMA_H'') (Mul (Lit 2) (Ident ''M_PI'')))) \<and>
     (\<exists>g m. exact_after_include ms ''GAMMA_H'' = Some g \<and>
        exact_after_include ms ''M_PI'' = Some m \<and>
        exact_after_include ms ''GAMMA_H_HZ'' = Some (g / (2 * m)) \<and>
        g / (2 * m) * (2 * m) = g) \<and>
     (\<exists>g m. double_after_include ms ''GAMMA_H'' = Some g \<and>
        double_after_include ms ''M_PI'' = Some m \<and>
        double_after_include ms ''GAMMA_H_HZ'' = Some (ddiv g (dmul (of_literal 2) m))) \<and>
     (v = 267.5987 * 10 ^ 6 \<and> p = 3.14159265358979323846 \<longrightarrow>
        (\<exists>g m h. double_after_include ms ''GAMMA_H'' = Some (Fin False g) \<and>
           double_after_include ms ''M_PI'' = Some (Fin False m) \<and>
           double_after_include ms ''GAMMA_H_HZ'' = Some (Fin False h) \<and>
           \<bar>h * (2 * m) - g\<bar> \<le> g / 2 ^ 53))"
proof (intro conjI impI)
  obtain ms' where inc: "include_header ms = Inr ms'"
    using include_header_succeeds by blast
  with include_header_derived(1) [OF inc assms(3)]
  show "\<exists>ms'. include_header ms = Inr ms' \<and>
        map_of ms' ''GAMMA_H_HZ'' = Some (Div (Ident ''GAMMA_H'') (Mul (Lit 2) (Ident ''M_PI'')))"
    by blast
  from \<open>p \<noteq> 0\<close> have "of_rat v / (2 * of_rat p) * (2 * of_rat p) = (of_rat v :: real)"
    by simp
  with exact_gamma_h [OF assms(1)] exact_m_pi [OF assms(2)] exact_gamma_h_hz [OF assms]
  show "\<exists>g m. exact_after_include ms ''GAMMA_H'' = Some g \<and>
        exact_after_include ms ''M_PI'' = Some m \<and>
        exact_after_include ms ''GAMMA_H_HZ'' = Some (g / (2 * m)) \<and>
        g / (2 * m) * (2 * m) = g"
    by blast
  from double_gamma_h [OF assms(1)] double_m_pi [OF assms(2)] double_gamma_h_hz [OF assms(1-3)]
  show "\<exists>g m. double_after_include ms ''GAMMA_H'' = Some g \<and>
        double_after_include ms ''M_PI'' = Some m \<and>
        double_after_include ms ''GAMMA_H_HZ'' = Some (ddiv g (dmul (of_literal 2) m))"
    by blast
next
  assume "v = 267.5987 * 10 ^ 6 \<and> p = 3.14159265358979323846"
  then have v: "v = 267598700" and p: "p = 3.14159265358979323846"
    by simp_all
  note g = assms(1) [unfolded v] and m = assms(2) [unfolded p]
  have "\<bar>5716286847168589 / 2 ^ 27 * (2 * (884279719003555 / 2 ^ 48)) - 267598700 :: rat\<bar>
      \<le> 267598700 / 2 ^ 53"
    by simp
  with host_double_gamma_h [OF g] host_double_m_pi [OF m] host_double_gamma_h_hz [OF g m assms(3)]
  show "\<exists>g m h. double_after_include ms ''GAMMA_H'' = Some (Fin False g) \<and>
           double_after_include ms ''M_PI'' = Some (Fin False m) \<and>
           double_after_include ms ''GAMMA_H_HZ'' = Some (Fin False h) \<and>
           \<bar>h * (2 * m) - g\<bar> \<le> g / 2 ^ 53"
    by blast
qed

theorem gamma_h_hz_is_quotient_witness:
  "effective_gamma_h host_macros = Some (267.5987 * 10 ^ 6) \<and>
   map_of host_macros ''M_PI'' = Some (Lit 3.14159265358979323846) \<and>
   map_of host_macros ''GAMMA_H_HZ'' = None \<and>
   (3.14159265358979323846 :: rat) \<noteq> 0 \<and>
   (\<exists>g m. exact_after_include host_macros ''GAMMA_H'' = Some g \<and>
      exact_after_include host_macros ''M_PI'' = Some m \<and>
      exact_after_include host_macros ''GAMMA_H_HZ'' = Some (g / (2 * m)) \<and>
      g / (2 * m) * (2 * m) = g) \<and>
   (\<exists>g m h. double_after_include host_macros ''GAMMA_H'' = Some (Fin False g) \<and>
      double_after_include host_macros ''M_PI'' = Some (Fin False m) \<and>
      double_after_include host_macros ''GAMMA_H_HZ'' = Some (Fin False h) \<and>
      \<bar>h * (2 * m) - g\<bar> \<le> g / 2 ^ 53)"
proof -
  note u = host_macros_undefined
  have e: "effective_gamma_h host_macros = Some (267.5987 * 10 ^ 6)"
    using effective_gamma_h_default [OF u(1)] by simp
  have n: "(3.14159265358979323846 :: rat) \<noteq> 0"
    by simp
  from gamma_h_hz_is_quotient [OF e u(5) u(2) n] e u(5) u(2) n show ?thesis
    by blast
qed

text \<open>
  C5: the squared constants are derived from their base constants. When the consumer
  has defined none of the three derived names, and \<^verbatim>\<open>GAMMA_H\<close> and \<^verbatim>\<open>M_PI\<close> are
  literals, then after the inclusion \<^verbatim>\<open>GAMMA_H_SQ\<close> is defined as
  \<^verbatim>\<open>(GAMMA_H * GAMMA_H)\<close> and \<^verbatim>\<open>GAMMA_H_HZ_SQ\<close> as \<^verbatim>\<open>(GAMMA_H_HZ * GAMMA_H_HZ)\<close>, no
  literal; in exact arithmetic their values are the squares of the values of
  \<^verbatim>\<open>GAMMA_H\<close> and \<^verbatim>\<open>GAMMA_H_HZ\<close>; in double arithmetic they are the double products of
  the doubles of \<^verbatim>\<open>GAMMA_H\<close> and \<^verbatim>\<open>GAMMA_H_HZ\<close> with themselves; and for the header's
  \<^verbatim>\<open>GAMMA_H\<close> and the host's \<^verbatim>\<open>M_PI\<close> the relative error of either double product is
  at most \<open>1 / 10 ^ 12\<close>.
\<close>

theorem squares_are_derived:
  assumes "effective_gamma_h ms = Some v"
    and "map_of ms ''M_PI'' = Some (Lit p)"
    and "map_of ms ''GAMMA_H_HZ'' = None"
    and "map_of ms ''GAMMA_H_SQ'' = None"
    and "map_of ms ''GAMMA_H_HZ_SQ'' = None"
    and "p \<noteq> 0"
  shows "(\<exists>ms'. include_header ms = Inr ms' \<and>
        map_of ms' ''GAMMA_H_SQ'' = Some (Mul (Ident ''GAMMA_H'') (Ident ''GAMMA_H'')) \<and>
        map_of ms' ''GAMMA_H_HZ_SQ'' = Some (Mul (Ident ''GAMMA_H_HZ'') (Ident ''GAMMA_H_HZ''))) \<and>
     (\<exists>g h. exact_after_include ms ''GAMMA_H'' = Some g \<and>
        exact_after_include ms ''GAMMA_H_HZ'' = Some h \<and>
        exact_after_include ms ''GAMMA_H_SQ'' = Some (g * g) \<and>
        exact_after_include ms ''GAMMA_H_HZ_SQ'' = Some (h * h)) \<and>
     (\<exists>g h. double_after_include ms ''GAMMA_H'' = Some g \<and>
        double_after_include ms ''GAMMA_H_HZ'' = Some h \<and>
        double_after_include ms ''GAMMA_H_SQ'' = Some (dmul g g) \<and>
        double_after_include ms ''GAMMA_H_HZ_SQ'' = Some (dmul h h)) \<and>
     (v = 267.5987 * 10 ^ 6 \<and> p = 3.14159265358979323846 \<longrightarrow>
        (\<exists>g h a b. double_after_include ms ''GAMMA_H'' = Some (Fin False g) \<and>
           double_after_include ms ''GAMMA_H_HZ'' = Some (Fin False h) \<and>
           double_after_include ms ''GAMMA_H_SQ'' = Some (Fin False a) \<and>
           double_after_include ms ''GAMMA_H_HZ_SQ'' = Some (Fin False b) \<and>
           \<bar>a - g * g\<bar> \<le> g * g / 10 ^ 12 \<and> \<bar>b - h * h\<bar> \<le> h * h / 10 ^ 12))"
proof (intro conjI impI)
  obtain ms' where inc: "include_header ms = Inr ms'"
    using include_header_succeeds by blast
  with include_header_derived(2) [OF inc assms(4)] include_header_derived(3) [OF inc assms(5)]
  show "\<exists>ms'. include_header ms = Inr ms' \<and>
        map_of ms' ''GAMMA_H_SQ'' = Some (Mul (Ident ''GAMMA_H'') (Ident ''GAMMA_H'')) \<and>
        map_of ms' ''GAMMA_H_HZ_SQ'' = Some (Mul (Ident ''GAMMA_H_HZ'') (Ident ''GAMMA_H_HZ''))"
    by blast
  from exact_gamma_h [OF assms(1)] exact_gamma_h_hz [OF assms(1-3,6)]
    exact_gamma_h_sq [OF assms(1,4)] exact_gamma_h_hz_sq [OF assms(1-3,5,6)]
  show "\<exists>g h. exact_after_include ms ''GAMMA_H'' = Some g \<and>
        exact_after_include ms ''GAMMA_H_HZ'' = Some h \<and>
        exact_after_include ms ''GAMMA_H_SQ'' = Some (g * g) \<and>
        exact_after_include ms ''GAMMA_H_HZ_SQ'' = Some (h * h)"
    by blast
  from double_gamma_h [OF assms(1)] double_gamma_h_hz [OF assms(1-3)]
    double_gamma_h_sq [OF assms(1,4)] double_gamma_h_hz_sq [OF assms(1-3,5)]
  show "\<exists>g h. double_after_include ms ''GAMMA_H'' = Some g \<and>
        double_after_include ms ''GAMMA_H_HZ'' = Some h \<and>
        double_after_include ms ''GAMMA_H_SQ'' = Some (dmul g g) \<and>
        double_after_include ms ''GAMMA_H_HZ_SQ'' = Some (dmul h h)"
    by blast
next
  assume "v = 267.5987 * 10 ^ 6 \<and> p = 3.14159265358979323846"
  then have v: "v = 267598700" and p: "p = 3.14159265358979323846"
    by simp_all
  note g = assms(1) [unfolded v] and m = assms(2) [unfolded p]
  have "\<bar>71609064241690000 - 267598700 * 267598700 :: rat\<bar> \<le> 267598700 * 267598700 / 10 ^ 12"
    by simp
  moreover have "\<bar>1813878787122059 - 5716286847168589 / 2 ^ 27 * (5716286847168589 / 2 ^ 27) :: rat\<bar>
      \<le> 5716286847168589 / 2 ^ 27 * (5716286847168589 / 2 ^ 27) / 10 ^ 12"
    by simp
  ultimately
  show "\<exists>g h a b. double_after_include ms ''GAMMA_H'' = Some (Fin False g) \<and>
           double_after_include ms ''GAMMA_H_HZ'' = Some (Fin False h) \<and>
           double_after_include ms ''GAMMA_H_SQ'' = Some (Fin False a) \<and>
           double_after_include ms ''GAMMA_H_HZ_SQ'' = Some (Fin False b) \<and>
           \<bar>a - g * g\<bar> \<le> g * g / 10 ^ 12 \<and> \<bar>b - h * h\<bar> \<le> h * h / 10 ^ 12"
    using host_double_gamma_h [OF g] host_double_gamma_h_hz [OF g m assms(3)]
      host_double_gamma_h_sq [OF g assms(4)] host_double_gamma_h_hz_sq [OF g m assms(3,5)]
    by blast
qed

theorem squares_are_derived_witness:
  "effective_gamma_h host_macros = Some (267.5987 * 10 ^ 6) \<and>
   map_of host_macros ''M_PI'' = Some (Lit 3.14159265358979323846) \<and>
   map_of host_macros ''GAMMA_H_HZ'' = None \<and>
   map_of host_macros ''GAMMA_H_SQ'' = None \<and>
   map_of host_macros ''GAMMA_H_HZ_SQ'' = None \<and>
   (3.14159265358979323846 :: rat) \<noteq> 0 \<and>
   (\<exists>g h. exact_after_include host_macros ''GAMMA_H'' = Some g \<and>
      exact_after_include host_macros ''GAMMA_H_HZ'' = Some h \<and>
      exact_after_include host_macros ''GAMMA_H_SQ'' = Some (g * g) \<and>
      exact_after_include host_macros ''GAMMA_H_HZ_SQ'' = Some (h * h)) \<and>
   (\<exists>g h a b. double_after_include host_macros ''GAMMA_H'' = Some (Fin False g) \<and>
      double_after_include host_macros ''GAMMA_H_HZ'' = Some (Fin False h) \<and>
      double_after_include host_macros ''GAMMA_H_SQ'' = Some (Fin False a) \<and>
      double_after_include host_macros ''GAMMA_H_HZ_SQ'' = Some (Fin False b) \<and>
      \<bar>a - g * g\<bar> \<le> g * g / 10 ^ 12 \<and> \<bar>b - h * h\<bar> \<le> h * h / 10 ^ 12)"
proof -
  note u = host_macros_undefined
  have e: "effective_gamma_h host_macros = Some (267.5987 * 10 ^ 6)"
    using effective_gamma_h_default [OF u(1)] by simp
  have n: "(3.14159265358979323846 :: rat) \<noteq> 0"
    by simp
  from squares_are_derived [OF e u(5) u(2) u(3) u(4) n] e u(5) u(2) u(3) u(4) n show ?thesis
    by blast
qed

text \<open>
  C6: when the consumer defines none of the four names and \<^verbatim>\<open>M_PI\<close> is the one of the
  host, each of the four names has a double value after the inclusion that is finite
  (neither an infinity nor a NaN, and below \<open>2 ^ 1024\<close>), of positive sign and not zero.
\<close>

theorem constants_positive_finite:
  assumes "map_of ms ''GAMMA_H'' = None"
    and "map_of ms ''GAMMA_H_HZ'' = None"
    and "map_of ms ''GAMMA_H_SQ'' = None"
    and "map_of ms ''GAMMA_H_HZ_SQ'' = None"
    and "map_of ms ''M_PI'' = Some (Lit 3.14159265358979323846)"
  shows "(\<exists>m. double_after_include ms ''GAMMA_H'' = Some (Fin False m) \<and> 0 < m \<and> m < 2 ^ 1024) \<and>
         (\<exists>m. double_after_include ms ''GAMMA_H_HZ'' = Some (Fin False m) \<and> 0 < m \<and> m < 2 ^ 1024) \<and>
         (\<exists>m. double_after_include ms ''GAMMA_H_SQ'' = Some (Fin False m) \<and> 0 < m \<and> m < 2 ^ 1024) \<and>
         (\<exists>m. double_after_include ms ''GAMMA_H_HZ_SQ'' = Some (Fin False m) \<and> 0 < m \<and> m < 2 ^ 1024)"
proof -
  note g = effective_gamma_h_default [OF assms(1)]
  show ?thesis
    unfolding host_double_gamma_h [OF g] host_double_gamma_h_hz [OF g assms(5,2)]
      host_double_gamma_h_sq [OF g assms(3)] host_double_gamma_h_hz_sq [OF g assms(5,2,4)]
    by (intro conjI; (rule exI, intro conjI, rule refl, simp_all))
qed

theorem constants_positive_finite_witness:
  "map_of host_macros ''GAMMA_H'' = None \<and>
   map_of host_macros ''GAMMA_H_HZ'' = None \<and>
   map_of host_macros ''GAMMA_H_SQ'' = None \<and>
   map_of host_macros ''GAMMA_H_HZ_SQ'' = None \<and>
   map_of host_macros ''M_PI'' = Some (Lit 3.14159265358979323846) \<and>
   (\<exists>m. double_after_include host_macros ''GAMMA_H'' = Some (Fin False m) \<and> 0 < m \<and> m < 2 ^ 1024) \<and>
   (\<exists>m. double_after_include host_macros ''GAMMA_H_HZ'' = Some (Fin False m) \<and> 0 < m \<and> m < 2 ^ 1024) \<and>
   (\<exists>m. double_after_include host_macros ''GAMMA_H_SQ'' = Some (Fin False m) \<and> 0 < m \<and> m < 2 ^ 1024) \<and>
   (\<exists>m. double_after_include host_macros ''GAMMA_H_HZ_SQ'' = Some (Fin False m) \<and> 0 < m \<and> m < 2 ^ 1024)"
  using constants_positive_finite [OF host_macros_undefined] host_macros_undefined
  by blast

text \<open>
  C7: including the header is idempotent. For every macro table \<open>ms\<close> the first inclusion
  succeeds, and every number \<open>n + 1\<close> of inclusions in a row succeeds as well and ends
  with the very macro table of the single inclusion, hence with the same four
  definitions; no inclusion raises the duplicate-definition error.
\<close>

theorem inclusion_idempotent:
  "\<exists>ms'. include_header ms = Inr ms' \<and> include_times (Suc n) ms = Inr ms'"
proof -
  obtain ms' where inc: "include_header ms = Inr ms'"
    by (simp add: include_header_eq)
  have "include_header ms' = Inr ms'"
    by (rule include_header_fixed) (rule include_header_defines [OF inc])
  then have "include_times n ms' = Inr ms'"
    by (rule include_times_fixed)
  with inc show ?thesis by simp
qed

text \<open>
  C8: a definition that exists before the header is included wins. If a name (one of the
  four names of the header in particular) is defined before, then the inclusion raises no
  error, the name keeps its replacement list, the list of the definitions of that name
  is the same as before (the header adds no second one), and a value that the name had
  before, in exact or in double arithmetic, is the value it has afterwards.
\<close>

theorem existing_definition_wins:
  assumes "map_of ms x = Some b"
  shows "\<exists>ms'. include_header ms = Inr ms' \<and> map_of ms' x = Some b \<and>
           definitions_of x ms' = definitions_of x ms \<and>
           (\<forall>r. exact_constant ms x = Some r \<longrightarrow> exact_constant ms' x = Some r) \<and>
           (\<forall>d. double_constant ms x = Some d \<longrightarrow> double_constant ms' x = Some d)"
proof -
  obtain ms' where inc: "include_header ms = Inr ms'"
    by (simp add: include_header_eq)
  have le: "map_of ms \<subseteq>\<^sub>m map_of ms'"
    using inc by (rule include_header_map_le)
  have "exact_constant ms' x = Some r" if "exact_constant ms x = Some r" for r
    using that expand_extend [OF le, of "Ident x"] value_exact_closed [of "expand ms (Ident x)" r]
    by (simp add: exact_constant_def)
  moreover have "double_constant ms' x = Some d" if "double_constant ms x = Some d" for d
    using that expand_extend [OF le, of "Ident x"] value_double_closed [of "expand ms (Ident x)" d]
    by (simp add: double_constant_def)
  ultimately show ?thesis
    using inc include_header_keeps [OF inc assms] include_header_definitions_of [OF inc assms]
    by blast
qed

theorem existing_definition_wins_witness:
  "map_of (host_macros @ [(''GAMMA_H_HZ'', Lit 42577478.92)]) ''GAMMA_H_HZ'' = Some (Lit 42577478.92) \<and>
   exact_constant (host_macros @ [(''GAMMA_H_HZ'', Lit 42577478.92)]) ''GAMMA_H_HZ'' = Some 42577478.92 \<and>
   double_constant (host_macros @ [(''GAMMA_H_HZ'', Lit 42577478.92)]) ''GAMMA_H_HZ'' =
     Some (of_literal 42577478.92) \<and>
   (\<exists>ms'. include_header (host_macros @ [(''GAMMA_H_HZ'', Lit 42577478.92)]) = Inr ms' \<and>
      map_of ms' ''GAMMA_H_HZ'' = Some (Lit 42577478.92) \<and>
      definitions_of ''GAMMA_H_HZ'' ms' = [Lit 42577478.92] \<and>
      exact_constant ms' ''GAMMA_H_HZ'' = Some 42577478.92 \<and>
      double_constant ms' ''GAMMA_H_HZ'' = Some (of_literal 42577478.92))"
proof -
  let ?ms = "host_macros @ [(''GAMMA_H_HZ'', Lit 42577478.92)]"
  have h: "map_of ?ms ''GAMMA_H_HZ'' = Some (Lit 42577478.92)"
    by (simp add: host_macros_def)
  have e: "exact_constant ?ms ''GAMMA_H_HZ'' = Some 42577478.92"
    unfolding exact_constant_def expand_macro [OF h] by (simp add: of_rat_divide)
  have d: "double_constant ?ms ''GAMMA_H_HZ'' = Some (of_literal 42577478.92)"
    unfolding double_constant_def expand_macro [OF h] by simp
  have o: "definitions_of ''GAMMA_H_HZ'' ?ms = [Lit 42577478.92]"
    by (simp add: definitions_of_def host_macros_def)
  from existing_definition_wins [OF h] e d o h show ?thesis
    by (metis (no_types, lifting))
qed

text \<open>
  C9: the derived constants follow an overridden base. If the consumer defines
  \<^verbatim>\<open>GAMMA_H\<close> as a literal \<open>v\<close> before the inclusion and none of the three derived names,
  and \<^verbatim>\<open>M_PI\<close> is the literal \<open>p\<close>, then after the inclusion \<^verbatim>\<open>GAMMA_H_HZ\<close> is
  \<open>v / (2 * p)\<close>, \<^verbatim>\<open>GAMMA_H_SQ\<close> is \<open>v * v\<close> and \<^verbatim>\<open>GAMMA_H_HZ_SQ\<close> is \<open>(v / (2 * p))\<^sup>2\<close> in
  exact arithmetic, and in double arithmetic they are the results of the same operations
  on the doubles of \<open>v\<close>, \<open>2\<close> and \<open>p\<close>: the literal \<open>267.5987 * 10 ^ 6\<close> does not occur.
\<close>

theorem derived_constants_follow_gamma_h:
  assumes "map_of ms ''GAMMA_H'' = Some (Lit v)"
    and "map_of ms ''GAMMA_H_HZ'' = None"
    and "map_of ms ''GAMMA_H_SQ'' = None"
    and "map_of ms ''GAMMA_H_HZ_SQ'' = None"
    and "map_of ms ''M_PI'' = Some (Lit p)"
    and "p \<noteq> 0"
  shows "exact_after_include ms ''GAMMA_H_HZ'' = Some (of_rat v / (2 * of_rat p)) \<and>
         exact_after_include ms ''GAMMA_H_SQ'' = Some (of_rat v * of_rat v) \<and>
         exact_after_include ms ''GAMMA_H_HZ_SQ'' = Some ((of_rat v / (2 * of_rat p))\<^sup>2) \<and>
         double_after_include ms ''GAMMA_H_HZ'' =
           Some (ddiv (of_literal v) (dmul (of_literal 2) (of_literal p))) \<and>
         double_after_include ms ''GAMMA_H_SQ'' = Some (dmul (of_literal v) (of_literal v)) \<and>
         double_after_include ms ''GAMMA_H_HZ_SQ'' =
           Some (dmul (ddiv (of_literal v) (dmul (of_literal 2) (of_literal p)))
                      (ddiv (of_literal v) (dmul (of_literal 2) (of_literal p))))"
proof -
  note g = effective_gamma_h_literal [OF assms(1)]
  show ?thesis
    unfolding power2_eq_square
    using exact_gamma_h_hz [OF g assms(5,2,6)] exact_gamma_h_sq [OF g assms(3)]
      exact_gamma_h_hz_sq [OF g assms(5,2,4,6)] double_gamma_h_hz [OF g assms(5,2)]
      double_gamma_h_sq [OF g assms(3)] double_gamma_h_hz_sq [OF g assms(5,2,4)]
    by blast
qed

theorem derived_constants_follow_gamma_h_witness:
  "map_of (host_macros @ [(''GAMMA_H'', Lit 3)]) ''GAMMA_H'' = Some (Lit 3) \<and>
   map_of (host_macros @ [(''GAMMA_H'', Lit 3)]) ''GAMMA_H_HZ'' = None \<and>
   map_of (host_macros @ [(''GAMMA_H'', Lit 3)]) ''GAMMA_H_SQ'' = None \<and>
   map_of (host_macros @ [(''GAMMA_H'', Lit 3)]) ''GAMMA_H_HZ_SQ'' = None \<and>
   map_of (host_macros @ [(''GAMMA_H'', Lit 3)]) ''M_PI'' = Some (Lit 3.14159265358979323846) \<and>
   (3.14159265358979323846 :: rat) \<noteq> 0 \<and>
   exact_after_include (host_macros @ [(''GAMMA_H'', Lit 3)]) ''GAMMA_H_HZ'' =
     Some (3 / (2 * 3.14159265358979323846)) \<and>
   exact_after_include (host_macros @ [(''GAMMA_H'', Lit 3)]) ''GAMMA_H_SQ'' = Some 9 \<and>
   exact_after_include (host_macros @ [(''GAMMA_H'', Lit 3)]) ''GAMMA_H_HZ_SQ'' =
     Some ((3 / (2 * 3.14159265358979323846))\<^sup>2) \<and>
   double_after_include (host_macros @ [(''GAMMA_H'', Lit 3)]) ''GAMMA_H_SQ'' = Some (Fin False 9)"
proof -
  let ?ms = "host_macros @ [(''GAMMA_H'', Lit 3)]"
  have h: "map_of ?ms ''GAMMA_H'' = Some (Lit 3)" "map_of ?ms ''GAMMA_H_HZ'' = None"
    "map_of ?ms ''GAMMA_H_SQ'' = None" "map_of ?ms ''GAMMA_H_HZ_SQ'' = None"
    "map_of ?ms ''M_PI'' = Some (Lit 3.14159265358979323846)"
    "(3.14159265358979323846 :: rat) \<noteq> 0"
    by (simp_all add: host_macros_def)
  have "of_literal 3 = Fin False 3"
    unfolding of_literal_def
    by (simp, rule to_double_normal [where k = 1 and m = 6755399441055744]) simp_all
  moreover have "to_double False 9 = Fin False 9"
    by (rule to_double_normal [where k = 3 and m = 5066549580791808]) simp_all
  ultimately have l: "dmul (of_literal 3) (of_literal 3) = Fin False 9"
    by simp
  note t = derived_constants_follow_gamma_h [OF h]
  have "exact_after_include ?ms ''GAMMA_H_HZ'' = Some (3 / (2 * 3.14159265358979323846))"
    and "exact_after_include ?ms ''GAMMA_H_SQ'' = Some 9"
    and "exact_after_include ?ms ''GAMMA_H_HZ_SQ'' = Some ((3 / (2 * 3.14159265358979323846))\<^sup>2)"
    and "double_after_include ?ms ''GAMMA_H_SQ'' = Some (Fin False 9)"
    using t by (simp_all add: l of_rat_divide)
  with h show ?thesis
    by blast
qed

text \<open>
  C10: the two squared constants differ by the factor \<open>(2 * M_PI)\<^sup>2\<close>. Under the
  conditions of C5, in exact arithmetic the value of \<^verbatim>\<open>GAMMA_H_HZ_SQ\<close> is the value of
  \<^verbatim>\<open>GAMMA_H_SQ\<close> divided by \<open>(2 * M_PI)\<^sup>2\<close>, and the value of \<^verbatim>\<open>GAMMA_H_SQ\<close> is the one
  of \<^verbatim>\<open>GAMMA_H_HZ_SQ\<close> times \<open>4 * M_PI\<^sup>2\<close>; for the header's \<^verbatim>\<open>GAMMA_H\<close> and the host's
  \<^verbatim>\<open>M_PI\<close> the doubles satisfy the same equation up to the \<open>2 ^ 52\<close>-th part of
  \<^verbatim>\<open>GAMMA_H_HZ_SQ\<close>.
\<close>

theorem squares_differ_by_four_pi_squared:
  assumes "effective_gamma_h ms = Some v"
    and "map_of ms ''M_PI'' = Some (Lit p)"
    and "map_of ms ''GAMMA_H_HZ'' = None"
    and "map_of ms ''GAMMA_H_SQ'' = None"
    and "map_of ms ''GAMMA_H_HZ_SQ'' = None"
    and "p \<noteq> 0"
  shows "(\<exists>a b m. exact_after_include ms ''GAMMA_H_SQ'' = Some a \<and>
        exact_after_include ms ''GAMMA_H_HZ_SQ'' = Some b \<and>
        exact_after_include ms ''M_PI'' = Some m \<and>
        b = a / (2 * m)\<^sup>2 \<and> a = b * (4 * m\<^sup>2)) \<and>
     (v = 267.5987 * 10 ^ 6 \<and> p = 3.14159265358979323846 \<longrightarrow>
        (\<exists>a b m. double_after_include ms ''GAMMA_H_SQ'' = Some (Fin False a) \<and>
           double_after_include ms ''GAMMA_H_HZ_SQ'' = Some (Fin False b) \<and>
           double_after_include ms ''M_PI'' = Some (Fin False m) \<and>
           \<bar>b - a / (2 * m)\<^sup>2\<bar> \<le> b / 2 ^ 52))"
proof (intro conjI impI)
  from \<open>p \<noteq> 0\<close>
  have "of_rat v / (2 * of_rat p) * (of_rat v / (2 * of_rat p)) =
      of_rat v * of_rat v / (2 * of_rat p :: real)\<^sup>2"
    and "of_rat v * of_rat v =
      of_rat v / (2 * of_rat p) * (of_rat v / (2 * of_rat p)) * (4 * (of_rat p :: real)\<^sup>2)"
    by (simp_all add: power2_eq_square)
  with exact_gamma_h_sq [OF assms(1,4)] exact_gamma_h_hz_sq [OF assms(1-3,5,6)]
    exact_m_pi [OF assms(2)]
  show "\<exists>a b m. exact_after_include ms ''GAMMA_H_SQ'' = Some a \<and>
        exact_after_include ms ''GAMMA_H_HZ_SQ'' = Some b \<and>
        exact_after_include ms ''M_PI'' = Some m \<and>
        b = a / (2 * m)\<^sup>2 \<and> a = b * (4 * m\<^sup>2)"
    by blast
next
  assume "v = 267.5987 * 10 ^ 6 \<and> p = 3.14159265358979323846"
  then have v: "v = 267598700" and p: "p = 3.14159265358979323846"
    by simp_all
  note g = assms(1) [unfolded v] and m = assms(2) [unfolded p]
  have "\<bar>1813878787122059 - 71609064241690000 / (2 * (884279719003555 / 2 ^ 48))\<^sup>2 :: rat\<bar>
      \<le> 1813878787122059 / 2 ^ 52"
    by (simp add: power2_eq_square)
  with host_double_gamma_h_sq [OF g assms(4)] host_double_gamma_h_hz_sq [OF g m assms(3,5)]
    host_double_m_pi [OF m]
  show "\<exists>a b m. double_after_include ms ''GAMMA_H_SQ'' = Some (Fin False a) \<and>
           double_after_include ms ''GAMMA_H_HZ_SQ'' = Some (Fin False b) \<and>
           double_after_include ms ''M_PI'' = Some (Fin False m) \<and>
           \<bar>b - a / (2 * m)\<^sup>2\<bar> \<le> b / 2 ^ 52"
    by blast
qed

theorem squares_differ_by_four_pi_squared_witness:
  "effective_gamma_h host_macros = Some (267.5987 * 10 ^ 6) \<and>
   map_of host_macros ''M_PI'' = Some (Lit 3.14159265358979323846) \<and>
   map_of host_macros ''GAMMA_H_HZ'' = None \<and>
   map_of host_macros ''GAMMA_H_SQ'' = None \<and>
   map_of host_macros ''GAMMA_H_HZ_SQ'' = None \<and>
   (3.14159265358979323846 :: rat) \<noteq> 0 \<and>
   (\<exists>a b m. exact_after_include host_macros ''GAMMA_H_SQ'' = Some a \<and>
      exact_after_include host_macros ''GAMMA_H_HZ_SQ'' = Some b \<and>
      exact_after_include host_macros ''M_PI'' = Some m \<and>
      b = a / (2 * m)\<^sup>2 \<and> a = b * (4 * m\<^sup>2)) \<and>
   (\<exists>a b m. double_after_include host_macros ''GAMMA_H_SQ'' = Some (Fin False a) \<and>
      double_after_include host_macros ''GAMMA_H_HZ_SQ'' = Some (Fin False b) \<and>
      double_after_include host_macros ''M_PI'' = Some (Fin False m) \<and>
      \<bar>b - a / (2 * m)\<^sup>2\<bar> \<le> b / 2 ^ 52)"
proof -
  note u = host_macros_undefined
  have e: "effective_gamma_h host_macros = Some (267.5987 * 10 ^ 6)"
    using effective_gamma_h_default [OF u(1)] by simp
  have n: "(3.14159265358979323846 :: rat) \<noteq> 0"
    by simp
  from squares_differ_by_four_pi_squared [OF e u(5) u(2) u(3) u(4) n] e u(5) u(2) u(3) u(4) n
  show ?thesis
    by blast
qed

end
